theory Spec2Isabelle
  imports Complex_Main "HOL-Library.Word"
begin

section \<open>Data model\<close>

text \<open>
  The player of \<^verbatim>\<open>src/components/Player.tsx\<close> reads one field of a scene when it
  decides what to play: the optional narration \<^verbatim>\<open>audioBase64\<close>. \<open>None\<close> is the
  JavaScript \<^verbatim>\<open>undefined\<close> of an optional field that was never assigned.
\<close>

record PoemScene =
  audioBase64 :: "string option"

text \<open>The exceptions that the code of \<^verbatim>\<open>playVoice\<close> and of the handlers can raise.\<close>

datatype error =
    InvalidCharacterError   \<comment> \<open>\<^verbatim>\<open>atob\<close> on a string that is not base64\<close>
  | RangeError              \<comment> \<open>\<^verbatim>\<open>new Int16Array\<close> on a buffer of odd byte length\<close>
  | NotSupportedError       \<comment> \<open>\<^verbatim>\<open>createBuffer\<close> with a length of zero frames\<close>
  | TypeError               \<comment> \<open>reading a property of \<^verbatim>\<open>undefined\<close>\<close>

section \<open>The platform's base64 decoder\<close>

text \<open>
  \<^verbatim>\<open>atob\<close> is the browser's forgiving-base64 decoder: ASCII whitespace is removed, one
  or two trailing \<^verbatim>\<open>=\<close> are removed when the length is a multiple of four, a length
  of 1 modulo 4 or a character outside the alphabet is a failure, and each character
  contributes six bits, the incomplete last byte being dropped. The result, a binary
  string, is represented by the list of its character codes.
\<close>

definition is_ascii_whitespace :: "char \<Rightarrow> bool" where
  "is_ascii_whitespace c =
     (let n = (of_char c :: nat) in n = 9 \<or> n = 10 \<or> n = 12 \<or> n = 13 \<or> n = 32)"

definition b64_index :: "char \<Rightarrow> nat option" where
  "b64_index c =
     (let n = (of_char c :: nat) in
      if 65 \<le> n \<and> n \<le> 90 then Some (n - 65)
      else if 97 \<le> n \<and> n \<le> 122 then Some (n - 71)
      else if 48 \<le> n \<and> n \<le> 57 then Some (n + 4)
      else if n = 43 then Some 62
      else if n = 47 then Some 63
      else None)"

definition strip_padding :: "string \<Rightarrow> string" where
  "strip_padding d =
     (if 2 \<le> length d \<and> drop (length d - 2) d = ''=='' then take (length d - 2) d
      else if 1 \<le> length d \<and> drop (length d - 1) d = ''='' then take (length d - 1) d
      else d)"

fun sextets_to_bytes :: "nat list \<Rightarrow> nat list" where
  "sextets_to_bytes (a # b # c # d # rest) =
     (let v = ((a * 64 + b) * 64 + c) * 64 + d
      in [v div 65536, (v div 256) mod 256, v mod 256] @ sextets_to_bytes rest)"
| "sextets_to_bytes [a, b, c] =
     (let v = ((a * 64 + b) * 64 + c) div 4 in [v div 256, v mod 256])"
| "sextets_to_bytes [a, b] = [(a * 64 + b) div 16]"
| "sextets_to_bytes _ = []"

definition atob :: "string \<Rightarrow> error + nat list" where
  "atob data =
     (let d0 = filter (\<lambda>c. \<not> is_ascii_whitespace c) data;
          d1 = (if length d0 mod 4 = 0 then strip_padding d0 else d0)
      in if length d1 mod 4 = 1 then Inl InvalidCharacterError
         else (case those (map b64_index d1) of
                 None \<Rightarrow> Inl InvalidCharacterError
               | Some sx \<Rightarrow> Inr (sextets_to_bytes sx)))"

section \<open>PCM decoding in \<^verbatim>\<open>playVoice\<close>\<close>

type_synonym byte = "8 word"
type_synonym int16 = "16 word"

text \<open>
  \<^verbatim>\<open>for (let i = 0; i < len; i++) bytes[i] = binaryString.charCodeAt(i);\<close>
  on a fresh \<^verbatim>\<open>Uint8Array(len)\<close>, which is filled with zeros. A store into a
  \<^verbatim>\<open>Uint8Array\<close> keeps the value modulo 256.
\<close>

function copy_bytes :: "nat \<Rightarrow> nat list \<Rightarrow> byte list \<Rightarrow> byte list" where
  "copy_bytes i binaryString bytes =
     (if i < length binaryString
      then copy_bytes (i + 1) binaryString (bytes[i := word_of_nat (binaryString ! i)])
      else bytes)"
  by pat_completeness auto
termination
  by (relation "measure (\<lambda>(i, binaryString, bytes). length binaryString - i)") auto

declare copy_bytes.simps [simp del]

definition to_bytes :: "nat list \<Rightarrow> byte list" where
  "to_bytes binaryString = copy_bytes 0 binaryString (replicate (length binaryString) 0)"

text \<open>\<^verbatim>\<open>const safeLen = len % 2 === 0 ? len : len - 1;\<close>\<close>

definition safeLen :: "nat \<Rightarrow> nat" where
  "safeLen len = (if len mod 2 = 0 then len else len - 1)"

text \<open>
  \<^verbatim>\<open>new Int16Array(buffer)\<close> raises a \<^verbatim>\<open>RangeError\<close> when the byte length of the
  buffer is not a multiple of two; otherwise element \<open>i\<close> is read from bytes \<open>2 i\<close>
  (low) and \<open>2 i + 1\<close> (high), the byte order of the platforms the player runs on.
\<close>

fun int16_view :: "byte list \<Rightarrow> int16 list" where
  "int16_view (lo # hi # rest) = word_cat hi lo # int16_view rest"
| "int16_view _ = []"

definition new_Int16Array :: "byte list \<Rightarrow> error + int16 list" where
  "new_Int16Array buf =
     (if length buf mod 2 \<noteq> 0 then Inl RangeError else Inr (int16_view buf))"

text \<open>
  An \<^verbatim>\<open>AudioBuffer\<close> of one channel. \<^verbatim>\<open>createBuffer\<close> raises a
  \<^verbatim>\<open>NotSupportedError\<close> when asked for zero frames; a new buffer is silent. The
  samples are 32-bit floats; every value the player stores, a 16-bit integer divided
  by \<open>2 ^ 15\<close>, is exactly representable in that format, so the channel data are given
  as the real numbers they stand for.
\<close>

record AudioBuffer =
  numberOfChannels :: nat
  sampleRate :: nat
  channelData :: "real list"

definition createBuffer :: "nat \<Rightarrow> nat \<Rightarrow> nat \<Rightarrow> error + AudioBuffer" where
  "createBuffer numChannels len rate =
     (if numChannels = 0 \<or> len = 0 \<or> rate = 0 then Inl NotSupportedError
      else Inr \<lparr>numberOfChannels = numChannels, sampleRate = rate,
                channelData = replicate len 0\<rparr>)"

text \<open>
  \<^verbatim>\<open>for (let i = 0; i < int16Data.length; i++) channelData[i] = int16Data[i] / 32768.0;\<close>
\<close>

function convert_samples :: "nat \<Rightarrow> int16 list \<Rightarrow> real list \<Rightarrow> real list" where
  "convert_samples i int16Data cd =
     (if i < length int16Data
      then convert_samples (i + 1) int16Data
             (cd[i := real_of_int (sint (int16Data ! i)) / 32768])
      else cd)"
  by pat_completeness auto
termination
  by (relation "measure (\<lambda>(i, int16Data, cd). length int16Data - i)") auto

declare convert_samples.simps [simp del]

text \<open>
  The decoding part of the \<^verbatim>\<open>try\<close> block of \<^verbatim>\<open>playVoice\<close>, from \<^verbatim>\<open>atob\<close> to the
  filled buffer. \<open>Inl\<close> is the exception that takes control to the \<^verbatim>\<open>catch\<close>.
\<close>

definition decode_bytes :: "byte list \<Rightarrow> error + AudioBuffer" where
  "decode_bytes bytes =
     (case new_Int16Array (take (safeLen (length bytes)) bytes) of
        Inl e \<Rightarrow> Inl e
      | Inr int16Data \<Rightarrow>
          (case createBuffer 1 (length int16Data) 24000 of
             Inl e \<Rightarrow> Inl e
           | Inr audioBuffer \<Rightarrow>
               Inr (audioBuffer\<lparr>channelData :=
                      convert_samples 0 int16Data (channelData audioBuffer)\<rparr>)))"

definition decode :: "string \<Rightarrow> error + AudioBuffer" where
  "decode base64Data =
     (case atob base64Data of
        Inl e \<Rightarrow> Inl e
      | Inr binaryString \<Rightarrow> decode_bytes (to_bytes binaryString))"

text \<open>
  The reading of two bytes as one signed 16-bit little-endian sample, written with
  integer arithmetic only: the unsigned value \<open>lo + 256 * hi\<close>, less \<open>2 ^ 16\<close> when the
  sign bit is set.
\<close>

definition spec_sample :: "byte \<Rightarrow> byte \<Rightarrow> int" where
  "spec_sample lo hi =
     (let u = uint lo + 256 * uint hi in if u < 32768 then u else u - 65536)"

section \<open>The state of a mounted player\<close>

text \<open>
  The output device, an \<^verbatim>\<open>AudioContext\<close>. Its \<^verbatim>\<open>state\<close> attribute is what the code
  reads. \<^verbatim>\<open>resume()\<close> and \<^verbatim>\<open>suspend()\<close> do not change the attribute when they are
  called: each leaves a request, and the attribute takes the requested value later, in
  a task of its own (the \<^verbatim>\<open>statechange\<close> event), one request after the other. A new
  context is \<^verbatim>\<open>suspended\<close>. \<^verbatim>\<open>close()\<close> is never called.
\<close>

datatype AudioContextState = Suspended | Running

record AudioContext =
  state :: AudioContextState
  requested :: "AudioContextState list"

text \<open>
  An \<^verbatim>\<open>AudioBufferSourceNode\<close> that was started. It is \<open>Playing\<close> until it reaches the
  end of its buffer or \<^verbatim>\<open>stop()\<close> is called on it. A node halted by \<^verbatim>\<open>stop()\<close> is
  \<open>Stopped\<close>: its \<^verbatim>\<open>ended\<close> event is still to come, as it is for a node that plays.
  A node is \<open>Finished\<close> once its \<^verbatim>\<open>ended\<close> event has been dispatched, which happens
  once. \<open>onended\<close> is \<open>None\<close> for \<^verbatim>\<open>null\<close>, and \<open>Some i\<close> for the handler installed by
  \<^verbatim>\<open>playVoice\<close>, a closure over the \<^verbatim>\<open>currentIndex\<close> \<open>i\<close> of the render that made it.
\<close>

datatype source_status = Playing | Finished | Stopped

record AudioBufferSourceNode =
  buffer :: AudioBuffer
  onended :: "int option"
  status :: source_status

text \<open>
  The four \<^verbatim>\<open>useState\<close> cells and the two refs of the component, the source nodes
  created so far (\<open>voiceSourceRef\<close> holds the position of one of them) and the number
  of pending \<^verbatim>\<open>setTimeout\<close> callbacks. The component never calls \<^verbatim>\<open>clearTimeout\<close>,
  and all its callbacks are the same \<^verbatim>\<open>setCurrentIndex(prev => prev + 1)\<close>, so their
  number is all there is to know about them.
\<close>

record Player =
  currentIndex :: int
  isPlaying :: bool
  isMuted :: bool
  hasEnded :: bool
  audioContextRef :: "AudioContext option"
  voiceSourceRef :: "nat option"
  nodes :: "AudioBufferSourceNode list"
  timers :: nat

definition initial :: Player where
  "initial = \<lparr>currentIndex = 0, isPlaying = False, isMuted = False, hasEnded = False,
              audioContextRef = None, voiceSourceRef = None, nodes = [], timers = 0\<rparr>"

text \<open>\<^verbatim>\<open>scenes[i]\<close>: \<^verbatim>\<open>undefined\<close> outside the array.\<close>

definition scene_at :: "PoemScene list \<Rightarrow> int \<Rightarrow> PoemScene option" where
  "scene_at scenes i =
     (if 0 \<le> i \<and> i < int (length scenes) then Some (scenes ! nat i) else None)"

section \<open>The audio device and \<^verbatim>\<open>playVoice\<close>\<close>

text \<open>
  \<^verbatim>\<open>if (audioContextRef.current) audioContextRef.current.resume()\<close>, and the same
  with \<^verbatim>\<open>suspend()\<close>; \<open>device_state\<close> is \<^verbatim>\<open>audioContextRef.current?.state\<close>.
\<close>

definition resume :: "Player \<Rightarrow> Player" where
  "resume s =
     (case audioContextRef s of
        None \<Rightarrow> s
      | Some ctx \<Rightarrow> s\<lparr>audioContextRef := Some (ctx\<lparr>requested := requested ctx @ [Running]\<rparr>)\<rparr>)"

definition suspend :: "Player \<Rightarrow> Player" where
  "suspend s =
     (case audioContextRef s of
        None \<Rightarrow> s
      | Some ctx \<Rightarrow> s\<lparr>audioContextRef := Some (ctx\<lparr>requested := requested ctx @ [Suspended]\<rparr>)\<rparr>)"

definition device_state :: "Player \<Rightarrow> AudioContextState option" where
  "device_state s = map_option state (audioContextRef s)"

text \<open>
  \<^verbatim>\<open>initAudio\<close>. The start that the constructor asks for by itself is not kept apart
  from the \<^verbatim>\<open>resume()\<close> that follows it here: the new context reads \<^verbatim>\<open>suspended\<close>, so
  \<^verbatim>\<open>resume()\<close> is always called on it, and both ask for the same state.
\<close>

definition initAudio :: "Player \<Rightarrow> Player" where
  "initAudio s =
     (let s1 = (if audioContextRef s = None
                then s\<lparr>audioContextRef := Some \<lparr>state = Suspended, requested = []\<rparr>\<rparr>
                else s)
      in if device_state s1 = Some Suspended then resume s1 else s1)"

text \<open>
  \<^verbatim>\<open>voiceSourceRef.current.onended = null; try { voiceSourceRef.current.stop(); } catch(e){}\<close>
\<close>

definition detach_and_stop :: "AudioBufferSourceNode \<Rightarrow> AudioBufferSourceNode" where
  "detach_and_stop n =
     n\<lparr>onended := None, status := (if status n = Playing then Stopped else status n)\<rparr>"

text \<open>
  \<^verbatim>\<open>playVoice\<close>, called from a render whose \<^verbatim>\<open>currentIndex\<close> is \<open>ci\<close>. The function
  has no \<^verbatim>\<open>await\<close>, so it runs to its end in one piece. An exception of the decoding
  is caught and logged: the previous source has been detached and stopped by then,
  and \<open>voiceSourceRef\<close> still holds it.
\<close>

definition playVoice :: "int \<Rightarrow> string \<Rightarrow> Player \<Rightarrow> Player" where
  "playVoice ci base64Data s =
     (case audioContextRef s of
        None \<Rightarrow> s
      | Some _ \<Rightarrow>
          (let s1 = (case voiceSourceRef s of
                       None \<Rightarrow> s
                     | Some k \<Rightarrow> s\<lparr>nodes := (nodes s)[k := detach_and_stop (nodes s ! k)]\<rparr>)
           in case decode base64Data of
                Inl e \<Rightarrow> s1
              | Inr audioBuffer \<Rightarrow>
                  s1\<lparr>voiceSourceRef := Some (length (nodes s1)),
                     nodes := nodes s1 @
                       [\<lparr>buffer = audioBuffer, onended = Some ci, status = Playing\<rparr>]\<rparr>))"

text \<open>The handler that \<^verbatim>\<open>playVoice\<close> installs as \<^verbatim>\<open>source.onended\<close>.\<close>

definition onended_handler :: "PoemScene list \<Rightarrow> int \<Rightarrow> Player \<Rightarrow> Player" where
  "onended_handler scenes ci s =
     (if ci < int (length scenes) - 1 then s\<lparr>timers := timers s + 1\<rparr>
      else s\<lparr>isPlaying := False, hasEnded := True\<rparr>)"

section \<open>Effects and handlers\<close>

text \<open>
  The effect with the dependencies \<^verbatim>\<open>[currentIndex, isPlaying, isMuted]\<close>. An
  \<^verbatim>\<open>audioBase64\<close> that is \<^verbatim>\<open>undefined\<close> or the empty string is falsy.
\<close>

definition sceneEffect :: "PoemScene list \<Rightarrow> Player \<Rightarrow> Player" where
  "sceneEffect scenes s =
     (if \<not> isPlaying s then s
      else
        let s1 = (if audioContextRef s = None then initAudio s else s)
        in if isMuted s1
           then (if device_state s1 = Some Running then suspend s1 else s1)
           else
             let s2 = (if device_state s1 = Some Suspended then resume s1 else s1)
             in case scene_at scenes (currentIndex s2) of
                  None \<Rightarrow> s2
                | Some scene \<Rightarrow>
                    (case audioBase64 scene of
                       None \<Rightarrow> s2
                     | Some b \<Rightarrow>
                         if b = [] then s2 else playVoice (currentIndex s2) b s2))"

text \<open>
  A render after the state went from \<open>old\<close> to \<open>new\<close>: the effect runs when one of its
  dependencies has changed. The effect writes refs only, so one pass is all.
\<close>

definition commit :: "PoemScene list \<Rightarrow> Player \<Rightarrow> Player \<Rightarrow> Player" where
  "commit scenes old new =
     (if currentIndex new = currentIndex old \<and> isPlaying new = isPlaying old
         \<and> isMuted new = isMuted old
      then new else sceneEffect scenes new)"

text \<open>
  Mounting: both effects run once, the scene effect first; the autoplay effect sets
  \<^verbatim>\<open>isPlaying\<close>, which renders again.
\<close>

definition mount :: "bool \<Rightarrow> PoemScene list \<Rightarrow> Player" where
  "mount autoPlay scenes =
     (let s0 = sceneEffect scenes initial
      in if autoPlay \<and> 0 < length scenes \<and> \<not> isPlaying s0
         then commit scenes s0 (s0\<lparr>isPlaying := True\<rparr>)
         else s0)"

text \<open>
  \<^verbatim>\<open>handlePlayPause\<close>. \<^verbatim>\<open>scene.audioBase64\<close> on an index outside the array is a
  \<^verbatim>\<open>TypeError\<close> that nothing catches. It is reported and the component goes on: the
  state updates queued before it stand, and so does what was done to the device. The
  handler gives the exception it raised, if any, and the state it leaves.
\<close>

definition handlePlayPause :: "PoemScene list \<Rightarrow> Player \<Rightarrow> error option \<times> Player" where
  "handlePlayPause scenes s0 =
     (let s = initAudio s0
      in if isPlaying s then (None, suspend (s\<lparr>isPlaying := False\<rparr>))
         else if hasEnded s
         then (None, resume (s\<lparr>hasEnded := False, currentIndex := 0, isPlaying := True\<rparr>))
         else
           let s1 = resume (s\<lparr>isPlaying := True\<rparr>)
           in if voiceSourceRef s1 \<noteq> None \<and> device_state s1 = Some Running
              then (None, s1)
              else (case scene_at scenes (currentIndex s1) of
                      None \<Rightarrow> (Some TypeError, s1)
                    | Some scene \<Rightarrow>
                        (case audioBase64 scene of
                           None \<Rightarrow> (None, s1)
                         | Some b \<Rightarrow>
                             if b = [] then (None, s1)
                             else (None, playVoice (currentIndex s1) b s1))))"

definition handleNext :: "PoemScene list \<Rightarrow> Player \<Rightarrow> Player" where
  "handleNext scenes s =
     (let s1 = s\<lparr>hasEnded := False\<rparr>
      in if currentIndex s < int (length scenes) - 1
         then s1\<lparr>currentIndex := currentIndex s1 + 1, isPlaying := True\<rparr>
         else s1)"

definition handlePrev :: "Player \<Rightarrow> Player" where
  "handlePrev s =
     (let s1 = s\<lparr>hasEnded := False\<rparr>
      in if currentIndex s > 0
         then s1\<lparr>currentIndex := currentIndex s1 - 1, isPlaying := True\<rparr>
         else s1)"

definition handleReplay :: "Player \<Rightarrow> Player" where
  "handleReplay s = resume (s\<lparr>hasEnded := False, currentIndex := 0, isPlaying := True\<rparr>)"

text \<open>The \<^verbatim>\<open>onClick\<close> of the thumbnail of scene \<open>idx\<close>, and that of the mute button.\<close>

definition selectScene :: "nat \<Rightarrow> Player \<Rightarrow> Player" where
  "selectScene idx s = s\<lparr>currentIndex := int idx, isPlaying := True, hasEnded := False\<rparr>"

definition toggleMute :: "Player \<Rightarrow> Player" where
  "toggleMute s = s\<lparr>isMuted := \<not> isMuted s\<rparr>"

section \<open>Events\<close>

text \<open>
  What can happen to a mounted player: a click on one of its buttons, the \<^verbatim>\<open>ended\<close>
  event of a source node, a pending timer coming due, or the device taking the next
  state requested of it. Each is handled to its end before the next.
\<close>

datatype event =
    ClickMute
  | ClickPrev
  | ClickPlayPause
  | ClickNext
  | ClickThumbnail nat
  | ClickReplay
  | SourceEnded nat
  | TimerFire
  | StateChange

text \<open>
  The \<^verbatim>\<open>ended\<close> event of node \<open>k\<close>. It is dispatched once, to a node that has reached
  the end of its buffer or was halted by \<^verbatim>\<open>stop()\<close>, and it runs the handler that the
  node has at that time. Whether the device is suspended is not looked at: a run of the
  model may let a node end that a suspended device would hold back.
\<close>

definition source_ended :: "PoemScene list \<Rightarrow> nat \<Rightarrow> Player \<Rightarrow> Player" where
  "source_ended scenes k s =
     (if k < length (nodes s) \<and> status (nodes s ! k) \<noteq> Finished
      then
        let s1 = s\<lparr>nodes := (nodes s)[k := (nodes s ! k)\<lparr>status := Finished\<rparr>]\<rparr>
        in case onended (nodes s ! k) of
             None \<Rightarrow> s1
           | Some ci \<Rightarrow> commit scenes s1 (onended_handler scenes ci s1)
      else s)"

text \<open>The device takes the state that was requested first. No state of React changes.\<close>

definition state_change :: "Player \<Rightarrow> Player" where
  "state_change s =
     (case audioContextRef s of
        None \<Rightarrow> s
      | Some ctx \<Rightarrow>
          (case requested ctx of
             [] \<Rightarrow> s
           | r # rs \<Rightarrow> s\<lparr>audioContextRef := Some \<lparr>state = r, requested = rs\<rparr>\<rparr>))"

text \<open>One pending \<^verbatim>\<open>setTimeout\<close> callback runs: \<^verbatim>\<open>setCurrentIndex(prev => prev + 1)\<close>.\<close>

definition timer_fire :: "PoemScene list \<Rightarrow> Player \<Rightarrow> Player" where
  "timer_fire scenes s =
     (if timers s = 0 then s
      else commit scenes s (s\<lparr>timers := timers s - 1, currentIndex := currentIndex s + 1\<rparr>))"

text \<open>
  The buttons that are rendered and enabled decide which clicks reach a handler: with
  no scenes the component renders a placeholder only; \<^verbatim>\<open>prev\<close> is disabled at index
  0 and \<^verbatim>\<open>next\<close> at the last index; there is one thumbnail per scene; the replay
  button is part of the end screen. \<open>Inl\<close> is for an exception that would end the
  component, one raised while rendering or in an effect. The player has none: what can
  raise in \<^verbatim>\<open>playVoice\<close> is inside its \<^verbatim>\<open>try\<close>, and the exception of a click handler
  is reported (\<open>uncaught\<close>) while the component goes on.
\<close>

definition uncaught :: "PoemScene list \<Rightarrow> event \<Rightarrow> Player \<Rightarrow> error option" where
  "uncaught scenes ev s =
     (if ev = ClickPlayPause \<and> scenes \<noteq> [] then fst (handlePlayPause scenes s) else None)"

fun step :: "PoemScene list \<Rightarrow> event \<Rightarrow> Player \<Rightarrow> error + Player" where
  "step scenes ClickMute s =
     (if scenes = [] then Inr s else Inr (commit scenes s (toggleMute s)))"
| "step scenes ClickPrev s =
     (if scenes = [] \<or> currentIndex s = 0 then Inr s
      else Inr (commit scenes s (handlePrev s)))"
| "step scenes ClickPlayPause s =
     (if scenes = [] then Inr s
      else Inr (commit scenes s (snd (handlePlayPause scenes s))))"
| "step scenes ClickNext s =
     (if scenes = [] \<or> currentIndex s = int (length scenes) - 1 then Inr s
      else Inr (commit scenes s (handleNext scenes s)))"
| "step scenes (ClickThumbnail idx) s =
     (if idx < length scenes then Inr (commit scenes s (selectScene idx s)) else Inr s)"
| "step scenes ClickReplay s =
     (if scenes \<noteq> [] \<and> hasEnded s then Inr (commit scenes s (handleReplay s))
      else Inr s)"
| "step scenes (SourceEnded k) s = Inr (source_ended scenes k s)"
| "step scenes TimerFire s = Inr (timer_fire scenes s)"
| "step scenes StateChange s = Inr (state_change s)"

fun run :: "PoemScene list \<Rightarrow> event list \<Rightarrow> Player \<Rightarrow> error + Player" where
  "run scenes [] s = Inr s"
| "run scenes (e # es) s =
     (case step scenes e s of Inl err \<Rightarrow> Inl err | Inr s' \<Rightarrow> run scenes es s')"

section \<open>What is observed of a player, and three scenes to run it on\<close>

text \<open>
  The snapshot the renderer shows (index, playing, muted, ended) with the number of
  pending timers, and the audio side: the node \<open>voiceSourceRef\<close> holds, and for every
  node created so far its handler and its status.
\<close>

definition snapshot :: "Player \<Rightarrow> int \<times> bool \<times> bool \<times> bool \<times> nat" where
  "snapshot s = (currentIndex s, isPlaying s, isMuted s, hasEnded s, timers s)"

definition audio_view :: "Player \<Rightarrow> nat option \<times> (int option \<times> source_status) list" where
  "audio_view s = (voiceSourceRef s, map (\<lambda>n. (onended n, status n)) (nodes s))"

text \<open>
  A narration of four bytes, \<open>01 00 FF 7F\<close>: the two samples \<open>1\<close> and \<open>32767\<close>. A
  scene that has it, and a scene whose narration was never generated.
\<close>

definition pcm_base64 :: string where
  "pcm_base64 = ''AQD/fw==''"

definition narrated :: PoemScene where
  "narrated = \<lparr>audioBase64 = Some pcm_base64\<rparr>"

definition silent :: PoemScene where
  "silent = \<lparr>audioBase64 = None\<rparr>"

text \<open>
  The buffer that narration decodes to, and three states of runs on such scenes, in
  all of which the device has come to run: scene 2 selected while node 0 was playing
  scene 0; the state in which the scene effect runs once node 0 has finished scene 0
  and its timer has fired; and the end of a session of two scenes.
\<close>

definition pcm_buffer :: AudioBuffer where
  "pcm_buffer =
     \<lparr>numberOfChannels = 1, sampleRate = 24000, channelData = [1 / 32768, 32767 / 32768]\<rparr>"

definition scene2_selected :: Player where
  "scene2_selected =
     \<lparr>currentIndex = 2, isPlaying = True, isMuted = False, hasEnded = False,
      audioContextRef = Some \<lparr>state = Running, requested = []\<rparr>, voiceSourceRef = Some 1,
      nodes = [\<lparr>buffer = pcm_buffer, onended = None, status = Stopped\<rparr>,
               \<lparr>buffer = pcm_buffer, onended = Some 2, status = Playing\<rparr>],
      timers = 0\<rparr>"

definition scene0_done :: Player where
  "scene0_done =
     \<lparr>currentIndex = 1, isPlaying = True, isMuted = False, hasEnded = False,
      audioContextRef = Some \<lparr>state = Running, requested = []\<rparr>, voiceSourceRef = Some 0,
      nodes = [\<lparr>buffer = pcm_buffer, onended = Some 0, status = Finished\<rparr>],
      timers = 0\<rparr>"

definition session_ended :: Player where
  "session_ended =
     \<lparr>currentIndex = 1, isPlaying = False, isMuted = False, hasEnded = True,
      audioContextRef = Some \<lparr>state = Running, requested = []\<rparr>, voiceSourceRef = Some 1,
      nodes = [\<lparr>buffer = pcm_buffer, onended = None, status = Finished\<rparr>,
               \<lparr>buffer = pcm_buffer, onended = Some 1, status = Finished\<rparr>],
      timers = 0\<rparr>"

section \<open>Notions the claims are stated with\<close>




text \<open>A scene whose narration is there and decodes; a position with no such scene.\<close>

definition playable :: "PoemScene \<Rightarrow> bool" where
  "playable scene =
     (case audioBase64 scene of
        None \<Rightarrow> False
      | Some b \<Rightarrow> b \<noteq> [] \<and> (case decode b of Inl e \<Rightarrow> False | Inr audioBuffer \<Rightarrow> True))"

definition nothing_to_play :: "PoemScene list \<Rightarrow> int \<Rightarrow> bool" where
  "nothing_to_play scenes i =
     (case scene_at scenes i of None \<Rightarrow> True | Some scene \<Rightarrow> \<not> playable scene)"

text \<open>
  The events of \<open>k\<close> scenes played to their end with nobody touching the player: node
  \<open>i\<close> ends, then the timer it has set fires. In such a run node \<open>k\<close> narrates scene
  \<open>k\<close>, which \<open>narrating k\<close> says of a state.
\<close>

fun natural_events :: "nat \<Rightarrow> event list" where
  "natural_events 0 = []"
| "natural_events (Suc k) = natural_events k @ [SourceEnded k, TimerFire]"

definition narrating :: "nat \<Rightarrow> Player \<Rightarrow> bool" where
  "narrating k s =
     (snapshot s = (int k, True, False, False, 0)
      \<and> audioContextRef s \<noteq> None
      \<and> voiceSourceRef s = Some k
      \<and> length (nodes s) = Suc k
      \<and> status (nodes s ! k) = Playing
      \<and> onended (nodes s ! k) = Some (int k))"


section \<open>Facts about the decoder\<close>

lemma uint_byte_less: "uint (b :: byte) < 256"
  using uint_lt2p [of b] by simp

lemma uint_cat: "uint (word_cat hi lo :: int16) = uint lo + 256 * uint hi"
  for lo hi :: byte
proof -
  have lo: "0 \<le> uint lo" "uint lo < 256" and hi: "0 \<le> uint hi" "uint hi < 256"
    by (simp_all add: uint_byte_less)
  have "uint (word_cat hi lo :: int16) = concat_bit 8 (uint lo) (uint hi) mod 2 ^ 16"
    by (simp only: word_cat_eq' uint_word_of_int) simp
  also have "\<dots> = (uint lo mod 256 + 256 * uint hi) mod 65536"
    by (simp add: concat_bit_eq take_bit_eq_mod push_bit_eq_mult mult.commute)
  also have "\<dots> = uint lo + 256 * uint hi"
    using lo hi by simp
  finally show ?thesis .
qed

lemma signed_wrap:
  fixes u :: int
  assumes "0 \<le> u" and "u < 65536"
  shows "(u + 32768) mod 65536 - 32768 = (if u < 32768 then u else u - 65536)"
proof (cases "u < 32768")
  case True
  with assms have "(u + 32768) mod 65536 = u + 32768"
    by (intro mod_pos_pos_trivial) linarith+
  with True show ?thesis by simp
next
  case False
  have "(u + 32768) mod 65536 = (u - 32768 + 65536) mod 65536"
    by (rule arg_cong [where f = "\<lambda>x. x mod 65536"]) linarith
  also have "\<dots> = (u - 32768) mod 65536"
    by (simp only: mod_add_self2)
  also from False assms have "\<dots> = u - 32768"
    by (intro mod_pos_pos_trivial) linarith+
  finally show ?thesis using False by simp
qed

lemma sint_cat: "sint (word_cat hi lo :: int16) = spec_sample lo hi"
  for lo hi :: byte
proof -
  have lo: "0 \<le> uint lo" "uint lo < 256" and hi: "0 \<le> uint hi" "uint hi < 256"
    by (simp_all add: uint_byte_less)
  have "sint (word_cat hi lo :: int16) = (uint lo + 256 * uint hi + 32768) mod 65536 - 32768"
    by (simp add: sint_uint signed_take_bit_eq_take_bit_shift take_bit_eq_mod uint_cat)
  also have "\<dots> = spec_sample lo hi"
    unfolding spec_sample_def Let_def
    by (rule signed_wrap) (use lo hi in linarith)+
  finally show ?thesis .
qed

lemma convert_samples_gen:
  "i \<le> length xs \<Longrightarrow> length cd = length xs \<Longrightarrow>
   convert_samples i xs cd = take i cd @ map (\<lambda>w. real_of_int (sint w) / 32768) (drop i xs)"
proof (induction i xs cd rule: convert_samples.induct)
  case (1 i xs cd)
  show ?case
  proof (cases "i < length xs")
    case True
    then have "convert_samples i xs cd =
        convert_samples (i + 1) xs (cd[i := real_of_int (sint (xs ! i)) / 32768])"
      by (subst convert_samples.simps) simp
    also have "\<dots> = take (i + 1) (cd[i := real_of_int (sint (xs ! i)) / 32768]) @
        map (\<lambda>w. real_of_int (sint w) / 32768) (drop (i + 1) xs)"
      using True 1 by simp
    also have "\<dots> = take i cd @ map (\<lambda>w. real_of_int (sint w) / 32768) (drop i xs)"
      using True 1(3)
      by (simp add: take_Suc_conv_app_nth Cons_nth_drop_Suc [symmetric])
    finally show ?thesis .
  next
    case False
    with 1 show ?thesis by (subst convert_samples.simps) simp
  qed
qed

lemma copy_bytes_gen:
  "i \<le> length xs \<Longrightarrow> length bs = length xs \<Longrightarrow>
   copy_bytes i xs bs = take i bs @ map word_of_nat (drop i xs)"
proof (induction i xs bs rule: copy_bytes.induct)
  case (1 i xs bs)
  show ?case
  proof (cases "i < length xs")
    case True
    then have "copy_bytes i xs bs = copy_bytes (i + 1) xs (bs[i := word_of_nat (xs ! i)])"
      by (subst copy_bytes.simps) simp
    also have "\<dots> = take (i + 1) (bs[i := word_of_nat (xs ! i)]) @
        map word_of_nat (drop (i + 1) xs)"
      using True 1 by simp
    also have "\<dots> = take i bs @ map word_of_nat (drop i xs)"
      using True 1(3)
      by (simp add: take_Suc_conv_app_nth Cons_nth_drop_Suc [symmetric])
    finally show ?thesis .
  next
    case False
    with 1 show ?thesis by (subst copy_bytes.simps) simp
  qed
qed

lemma to_bytes_map: "to_bytes xs = map word_of_nat xs"
  by (simp add: to_bytes_def copy_bytes_gen)

lemma length_int16_view: "length (int16_view bs) = length bs div 2"
  by (induction bs rule: int16_view.induct) simp_all

lemma int16_view_nth:
  "i < length bs div 2 \<Longrightarrow> int16_view bs ! i = word_cat (bs ! (2 * i + 1)) (bs ! (2 * i))"
proof (induction bs arbitrary: i rule: int16_view.induct)
  case (1 lo hi rest)
  then show ?case by (cases i) simp_all
qed simp_all

lemma int16_view_take_even: "int16_view (take (2 * k) bs) = take k (int16_view bs)"
  apply (induction bs arbitrary: k rule: int16_view.induct)
  subgoal for lo hi rest k by (cases k) simp_all
  subgoal by simp
  subgoal for v k by (cases k) simp_all
  done

lemma safeLen_even: "safeLen len = 2 * (len div 2)"
  unfolding safeLen_def by presburger

lemma int16_view_take: "int16_view (take (safeLen (length bs)) bs) = int16_view bs"
  by (simp add: safeLen_even int16_view_take_even length_int16_view)

lemma new_Int16Array_safe:
  "new_Int16Array (take (safeLen (length bs)) bs) = Inr (int16_view bs)"
proof -
  have "length (take (safeLen (length bs)) bs) = 2 * (length bs div 2)"
    by (simp add: safeLen_even)
  then show ?thesis
    by (simp add: new_Int16Array_def int16_view_take)
qed

lemma int16_view_samples:
  "map (\<lambda>w. real_of_int (sint w) / 32768) (int16_view bs) =
   map (\<lambda>i. real_of_int (spec_sample (bs ! (2 * i)) (bs ! (2 * i + 1))) / 32768)
     [0..<length bs div 2]"
  by (rule nth_equalityI)
    (simp_all add: length_int16_view int16_view_nth sint_cat del: of_int_sint)

lemma decode_bytes_eq:
  "decode_bytes bs =
     (if length bs < 2 then Inl NotSupportedError
      else Inr \<lparr>numberOfChannels = 1, sampleRate = 24000,
                channelData = map (\<lambda>w. real_of_int (sint w) / 32768) (int16_view bs)\<rparr>)"
proof (cases "length bs < 2")
  case True
  then have "length bs div 2 = 0" by simp
  with True show ?thesis
    by (simp add: decode_bytes_def new_Int16Array_safe createBuffer_def length_int16_view)
next
  case False
  then have nz: "length bs div 2 \<noteq> 0" by simp
  have "convert_samples 0 (int16_view bs) (replicate (length bs div 2) 0) =
      map (\<lambda>w. real_of_int (sint w) / 32768) (int16_view bs)"
    by (subst convert_samples_gen) (simp_all add: length_int16_view)
  with False nz show ?thesis
    by (simp add: decode_bytes_def new_Int16Array_safe createBuffer_def length_int16_view)
qed

section \<open>Claims about the decoder\<close>

text \<open>
  C6. For every byte payload the 16-bit view taken by \<^verbatim>\<open>playVoice\<close> never raises and
  has exactly \<open>\<lfloor>len / 2\<rfloor>\<close> samples, the trailing byte of an odd-length payload being
  discarded; sample \<open>i\<close> is the signed little-endian reading of bytes \<open>2 i\<close> and
  \<open>2 i + 1\<close>; and the buffer that is played (there is one as soon as there is one
  sample) holds each sample \<open>s\<close> as \<open>s / 32768\<close>.
\<close>

theorem pcm_decode_samples:
  "new_Int16Array (take (safeLen (length bytes)) bytes) = Inr (int16_view bytes)
   \<and> length (int16_view bytes) = length bytes div 2
   \<and> (\<forall>i < length bytes div 2.
        sint (int16_view bytes ! i) = spec_sample (bytes ! (2 * i)) (bytes ! (2 * i + 1)))
   \<and> (2 \<le> length bytes \<longrightarrow>
        decode_bytes bytes =
          Inr \<lparr>numberOfChannels = 1, sampleRate = 24000,
               channelData =
                 map (\<lambda>i. real_of_int (spec_sample (bytes ! (2 * i)) (bytes ! (2 * i + 1))) / 32768)
                   [0..<length bytes div 2]\<rparr>)"
proof (intro conjI allI impI)
  show "new_Int16Array (take (safeLen (length bytes)) bytes) = Inr (int16_view bytes)"
    by (rule new_Int16Array_safe)
  show "length (int16_view bytes) = length bytes div 2"
    by (rule length_int16_view)
  show "sint (int16_view bytes ! i) = spec_sample (bytes ! (2 * i)) (bytes ! (2 * i + 1))"
    if "i < length bytes div 2" for i
    using that by (simp add: int16_view_nth sint_cat)
  show "decode_bytes bytes =
          Inr \<lparr>numberOfChannels = 1, sampleRate = 24000,
               channelData =
                 map (\<lambda>i. real_of_int (spec_sample (bytes ! (2 * i)) (bytes ! (2 * i + 1))) / 32768)
                   [0..<length bytes div 2]\<rparr>"
    if "2 \<le> length bytes"
    using that by (simp add: decode_bytes_eq int16_view_samples del: of_int_sint)
qed

theorem pcm_decode_samples_witness:
  "length (int16_view [0, 255, 0, 128, 7]) = 2
   \<and> sint (int16_view [0, 255, 0, 128, 7] ! 0) = - 256
   \<and> sint (int16_view [0, 255, 0, 128, 7] ! 1) = - 32768
   \<and> decode_bytes [0, 255, 0, 128, 7] =
       Inr \<lparr>numberOfChannels = 1, sampleRate = 24000, channelData = [- 1 / 128, - 1]\<rparr>"
proof -
  note t = pcm_decode_samples [of "[0, 255, 0, 128, 7]"]
  note q = t [THEN conjunct2, THEN conjunct2, THEN conjunct1, rule_format]
  note d = t [THEN conjunct2, THEN conjunct2, THEN conjunct2, rule_format]
  have u: "[0..<2] = [0, Suc 0]"
    by (simp add: numeral_2_eq_2)
  have l: "length (int16_view [0, 255, 0, 128, 7]) = 2"
    using t [THEN conjunct2, THEN conjunct1] by simp
  have s0: "sint (int16_view [0, 255, 0, 128, 7] ! 0) = - 256"
    by (subst q [of 0]) (simp_all add: spec_sample_def)
  have s1: "sint (int16_view [0, 255, 0, 128, 7] ! 1) = - 32768"
    by (subst q [of 1]) (simp_all add: spec_sample_def)
  have "decode_bytes [0, 255, 0, 128, 7] =
       Inr \<lparr>numberOfChannels = 1, sampleRate = 24000, channelData = [- 1 / 128, - 1]\<rparr>"
    by (subst d) (simp_all add: spec_sample_def u)
  with l s0 s1 show ?thesis by blast
qed

section \<open>Running the player on concrete scenes\<close>

lemma atob_pcm_base64: "atob pcm_base64 = Inr [1, 0, 255, 127]"
  by (simp add: pcm_base64_def atob_def is_ascii_whitespace_def strip_padding_def
      b64_index_def Let_def)

lemma decode_pcm_base64:
  "decode pcm_base64 =
     Inr pcm_buffer"
proof -
  have "sint (word_cat (0 :: byte) (1 :: byte) :: int16) = 1"
    by (simp add: sint_cat spec_sample_def)
  moreover have "sint (word_cat (127 :: byte) (255 :: byte) :: int16) = 32767"
    by (simp add: sint_cat spec_sample_def)
  ultimately show ?thesis
    by (simp add: decode_def atob_pcm_base64 to_bytes_map decode_bytes_eq pcm_buffer_def
        del: of_int_sint)
qed

lemma pcm_base64_nonempty: "pcm_base64 \<noteq> []"
  by (simp add: pcm_base64_def)

lemmas player_defs =
  mount_def commit_def sceneEffect_def initAudio_def resume_def suspend_def playVoice_def
  detach_and_stop_def onended_handler_def source_ended_def timer_fire_def
  handlePlayPause_def handleNext_def handlePrev_def handleReplay_def selectScene_def
  toggleMute_def scene_at_def initial_def snapshot_def audio_view_def state_change_def
  device_state_def
  narrated_def silent_def scene2_selected_def scene0_done_def session_ended_def
  decode_pcm_base64 pcm_base64_nonempty Let_def

lemma playable_narrated: "playable narrated"
  by (simp add: playable_def narrated_def decode_pcm_base64 pcm_base64_nonempty)

section \<open>Superseded nodes\<close>

lemma resume_fields [simp]:
  "nodes (resume s) = nodes s" "voiceSourceRef (resume s) = voiceSourceRef s"
  "timers (resume s) = timers s" "currentIndex (resume s) = currentIndex s"
  "isPlaying (resume s) = isPlaying s" "isMuted (resume s) = isMuted s"
  "hasEnded (resume s) = hasEnded s"
  by (simp_all add: resume_def split: option.splits)

lemma suspend_fields [simp]:
  "nodes (suspend s) = nodes s" "voiceSourceRef (suspend s) = voiceSourceRef s"
  "timers (suspend s) = timers s" "currentIndex (suspend s) = currentIndex s"
  "isPlaying (suspend s) = isPlaying s" "isMuted (suspend s) = isMuted s"
  "hasEnded (suspend s) = hasEnded s"
  by (simp_all add: suspend_def split: option.splits)

lemma state_change_fields [simp]:
  "nodes (state_change s) = nodes s" "voiceSourceRef (state_change s) = voiceSourceRef s"
  "timers (state_change s) = timers s" "currentIndex (state_change s) = currentIndex s"
  "isPlaying (state_change s) = isPlaying s" "isMuted (state_change s) = isMuted s"
  "hasEnded (state_change s) = hasEnded s"
  by (simp_all add: state_change_def split: option.splits list.splits)

lemma initAudio_fields [simp]:
  "nodes (initAudio s) = nodes s" "voiceSourceRef (initAudio s) = voiceSourceRef s"
  "timers (initAudio s) = timers s" "currentIndex (initAudio s) = currentIndex s"
  "isPlaying (initAudio s) = isPlaying s" "isMuted (initAudio s) = isMuted s"
  "hasEnded (initAudio s) = hasEnded s"
  by (simp_all add: initAudio_def Let_def)

lemma playVoice_fields [simp]:
  "timers (playVoice ci b s) = timers s" "currentIndex (playVoice ci b s) = currentIndex s"
  "isPlaying (playVoice ci b s) = isPlaying s" "isMuted (playVoice ci b s) = isMuted s"
  "hasEnded (playVoice ci b s) = hasEnded s"
  "audioContextRef (playVoice ci b s) = audioContextRef s"
  by (simp_all add: playVoice_def Let_def split: option.splits sum.splits)



lemma playVoice_no_device: "audioContextRef s = None \<Longrightarrow> playVoice ci b s = s"
  by (simp add: playVoice_def)

lemma playVoice_failed_first:
  "audioContextRef s = Some c \<Longrightarrow> voiceSourceRef s = None \<Longrightarrow> decode b = Inl e \<Longrightarrow>
   playVoice ci b s = s"
  by (simp add: playVoice_def)

lemma playVoice_failed:
  "audioContextRef s = Some c \<Longrightarrow> voiceSourceRef s = Some k \<Longrightarrow> decode b = Inl e \<Longrightarrow>
   playVoice ci b s = s\<lparr>nodes := (nodes s)[k := detach_and_stop (nodes s ! k)]\<rparr>"
  by (simp add: playVoice_def)

lemma playVoice_first:
  "audioContextRef s = Some c \<Longrightarrow> voiceSourceRef s = None \<Longrightarrow> decode b = Inr buf \<Longrightarrow>
   playVoice ci b s =
     s\<lparr>voiceSourceRef := Some (length (nodes s)),
       nodes := nodes s @ [\<lparr>buffer = buf, onended = Some ci, status = Playing\<rparr>]\<rparr>"
  by (simp add: playVoice_def)

lemma playVoice_replace:
  "audioContextRef s = Some c \<Longrightarrow> voiceSourceRef s = Some k \<Longrightarrow> decode b = Inr buf \<Longrightarrow>
   playVoice ci b s =
     s\<lparr>voiceSourceRef := Some (length (nodes s)),
       nodes := (nodes s)[k := detach_and_stop (nodes s ! k)] @
                [\<lparr>buffer = buf, onended = Some ci, status = Playing\<rparr>]\<rparr>"
  by (simp add: playVoice_def)

















lemma step_total: "\<exists>s'. step scenes ev s = Inr s'"
  by (cases ev) simp_all

lemma run_total: "\<exists>s'. run scenes evs s = Inr s'"
proof (induction evs arbitrary: s)
  case Nil
  show ?case by simp
next
  case (Cons ev evs)
  obtain s1 where "step scenes ev s = Inr s1"
    using step_total by blast
  with Cons [of s1] show ?case by simp
qed



section \<open>Scenes with nothing to play\<close>

lemma detach_and_stop_simps [simp]:
  "onended (detach_and_stop n) = None" "status (detach_and_stop n) \<noteq> Playing"
  by (simp_all add: detach_and_stop_def)

lemma detach_status: "status n \<noteq> Playing \<Longrightarrow> status (detach_and_stop n) = status n"
  by (simp add: detach_and_stop_def)

lemma detach_nth:
  "k < length ns \<Longrightarrow>
   ns[j := detach_and_stop (ns ! j)] ! k = (if k = j then detach_and_stop (ns ! k) else ns ! k)"
  by (simp add: nth_list_update)

lemma not_playable_cases:
  assumes "\<not> playable scene"
  shows "audioBase64 scene = None \<or> audioBase64 scene = Some []
    \<or> (\<exists>b e. audioBase64 scene = Some b \<and> b \<noteq> [] \<and> decode b = Inl e)"
  using assms by (auto simp: playable_def split: option.splits sum.splits)

lemma playVoice_failed_shape:
  assumes "decode b = Inl e"
  shows "playVoice ci b s = s
    \<or> (\<exists>k. voiceSourceRef s = Some k
          \<and> playVoice ci b s = s\<lparr>nodes := (nodes s)[k := detach_and_stop (nodes s ! k)]\<rparr>)"
proof (cases "audioContextRef s")
  case None
  then show ?thesis by (simp add: playVoice_no_device)
next
  case (Some c)
  with assms show ?thesis
    by (cases "voiceSourceRef s") (simp_all add: playVoice_failed_first playVoice_failed)
qed

lemma play_scene_nothing:
  assumes "nothing_to_play scenes (currentIndex t)"
  shows "(case scene_at scenes (currentIndex t) of
            None \<Rightarrow> t
          | Some scene \<Rightarrow>
              (case audioBase64 scene of
                 None \<Rightarrow> t
               | Some b \<Rightarrow> if b = [] then t else playVoice (currentIndex t) b t)) = t
    \<or> (\<exists>k. voiceSourceRef t = Some k \<and>
          (case scene_at scenes (currentIndex t) of
             None \<Rightarrow> t
           | Some scene \<Rightarrow>
               (case audioBase64 scene of
                  None \<Rightarrow> t
                | Some b \<Rightarrow> if b = [] then t else playVoice (currentIndex t) b t))
            = t\<lparr>nodes := (nodes t)[k := detach_and_stop (nodes t ! k)]\<rparr>)"
proof (cases "scene_at scenes (currentIndex t)")
  case None
  then show ?thesis by simp
next
  case (Some scene)
  with assms have "\<not> playable scene"
    by (simp add: nothing_to_play_def)
  from not_playable_cases [OF this] show ?thesis
  proof (elim disjE exE conjE)
    fix b e assume "audioBase64 scene = Some b" "b \<noteq> []" "decode b = Inl e"
    with Some playVoice_failed_shape [of b e "currentIndex t" t] show ?thesis
      by auto
  qed (simp_all add: Some)
qed

lemma only_device:
  fixes s t :: Player
  assumes "nodes t = nodes s" and "voiceSourceRef t = voiceSourceRef s"
    and "timers t = timers s" and "currentIndex t = currentIndex s"
    and "isPlaying t = isPlaying s" and "isMuted t = isMuted s" and "hasEnded t = hasEnded s"
  shows "t = s\<lparr>audioContextRef := audioContextRef t\<rparr>"
  using assms by (cases s, cases t) simp

lemma sceneEffect_nothing:
  assumes "nothing_to_play scenes (currentIndex s)"
  shows "\<exists>c. sceneEffect scenes s = s\<lparr>audioContextRef := c\<rparr>
    \<or> (\<exists>k. voiceSourceRef s = Some k \<and>
          sceneEffect scenes s =
            s\<lparr>audioContextRef := c, nodes := (nodes s)[k := detach_and_stop (nodes s ! k)]\<rparr>)"
proof (cases "isPlaying s")
  case False
  then have "sceneEffect scenes s = s\<lparr>audioContextRef := audioContextRef s\<rparr>"
    by (simp add: sceneEffect_def)
  then show ?thesis by blast
next
  case True
  define s1 where "s1 = (if audioContextRef s = None then initAudio s else s)"
  define s2 where "s2 = (if device_state s1 = Some Suspended then resume s1 else s1)"
  have e1: "s1 = s\<lparr>audioContextRef := audioContextRef s1\<rparr>"
    by (rule only_device) (simp_all add: s1_def)
  have e2: "s2 = s\<lparr>audioContextRef := audioContextRef s2\<rparr>"
    by (rule only_device) (simp_all add: s2_def s1_def)
  show ?thesis
  proof (cases "isMuted s1")
    case m: True
    have "sceneEffect scenes s = (if device_state s1 = Some Running then suspend s1 else s1)"
      using True m by (simp add: sceneEffect_def s1_def Let_def)
    also have "\<dots> = s\<lparr>audioContextRef := audioContextRef \<dots>\<rparr>"
      by (rule only_device) (simp_all add: s1_def)
    finally show ?thesis by blast
  next
    case m: False
    have se: "sceneEffect scenes s =
        (case scene_at scenes (currentIndex s2) of
           None \<Rightarrow> s2
         | Some scene \<Rightarrow>
             (case audioBase64 scene of
                None \<Rightarrow> s2
              | Some b \<Rightarrow> if b = [] then s2 else playVoice (currentIndex s2) b s2))"
      using True m unfolding sceneEffect_def s1_def s2_def Let_def by simp
    have i2: "currentIndex s2 = currentIndex s" "voiceSourceRef s2 = voiceSourceRef s"
      "nodes s2 = nodes s"
      by (simp_all add: s2_def s1_def)
    from assms have "nothing_to_play scenes (currentIndex s2)"
      by (simp add: i2)
    from play_scene_nothing [OF this]
    have "sceneEffect scenes s = s2
      \<or> (\<exists>k. voiceSourceRef s2 = Some k \<and>
            sceneEffect scenes s = s2\<lparr>nodes := (nodes s2)[k := detach_and_stop (nodes s2 ! k)]\<rparr>)"
      unfolding se .
    then show ?thesis
    proof (elim disjE exE conjE)
      assume "sceneEffect scenes s = s2"
      with e2 have "sceneEffect scenes s = s\<lparr>audioContextRef := audioContextRef s2\<rparr>"
        by simp
      then show ?thesis by blast
    next
      fix k assume k: "voiceSourceRef s2 = Some k"
        and "sceneEffect scenes s = s2\<lparr>nodes := (nodes s2)[k := detach_and_stop (nodes s2 ! k)]\<rparr>"
      then have "sceneEffect scenes s =
          (s\<lparr>audioContextRef := audioContextRef s2\<rparr>)
            \<lparr>nodes := (nodes s)[k := detach_and_stop (nodes s ! k)]\<rparr>"
        using e2 i2 by metis
      with k i2 show ?thesis by auto
    qed
  qed
qed

lemma sceneEffect_device:
  "audioContextRef (sceneEffect scenes s) = audioContextRef (sceneEffect scenes' s)"
  by (simp add: sceneEffect_def Let_def split: option.splits)

lemma source_ended_no_handler:
  assumes "k < length (nodes t) \<Longrightarrow>
    status (nodes t ! k) = Finished \<or> onended (nodes t ! k) = None"
  shows "source_ended scenes k t
    = t\<lparr>nodes := (nodes t)[k := (nodes t ! k)\<lparr>status := Finished\<rparr>]\<rparr>"
proof (cases "k < length (nodes t)")
  case False
  then show ?thesis by (simp add: source_ended_def list_update_beyond)
next
  case True
  show ?thesis
  proof (cases "status (nodes t ! k) = Finished")
    case f: True
    then have "(nodes t ! k)\<lparr>status := Finished\<rparr> = nodes t ! k"
      by simp
    then have "t\<lparr>nodes := (nodes t)[k := (nodes t ! k)\<lparr>status := Finished\<rparr>]\<rparr> = t"
      by simp
    then show ?thesis
      using f by (simp add: source_ended_def)
  next
    case False
    with True assms have "onended (nodes t ! k) = None" by simp
    with True False show ?thesis by (simp add: source_ended_def Let_def)
  qed
qed

text \<open>
  C2, amended. When the scene at the current index has no narration, or one that is
  empty or does not decode, the scene effect (which is what starts playback of a
  scene) schedules nothing: the snapshot and the number of pending timers are as
  before, no node is created and none gets a handler. If moreover no timer is pending
  and no node is playing (and the nodes that were stopped have no handler, as
  \<^verbatim>\<open>playVoice\<close> leaves them), as after the natural completion of the previous scene
  and its timer, then a timer event changes nothing in the state that results, and the
  end event of a node leaves nothing but that the node has had it: the player stays at
  that scene until the user acts.
\<close>

theorem absent_narration_schedules_nothing:
  assumes "nothing_to_play scenes (currentIndex s)"
  shows "snapshot (sceneEffect scenes s) = snapshot s
    \<and> length (nodes (sceneEffect scenes s)) = length (nodes s)
    \<and> voiceSourceRef (sceneEffect scenes s) = voiceSourceRef s
    \<and> (\<forall>k < length (nodes s).
          onended (nodes (sceneEffect scenes s) ! k) = None
          \<or> nodes (sceneEffect scenes s) ! k = nodes s ! k)
    \<and> (timers s = 0
        \<and> (\<forall>k < length (nodes s). status (nodes s ! k) \<noteq> Playing
              \<and> (status (nodes s ! k) = Stopped \<longrightarrow> onended (nodes s ! k) = None)) \<longrightarrow>
          step scenes TimerFire (sceneEffect scenes s) = Inr (sceneEffect scenes s)
          \<and> (\<forall>k. step scenes (SourceEnded k) (sceneEffect scenes s)
                  = Inr ((sceneEffect scenes s)
                      \<lparr>nodes := (nodes (sceneEffect scenes s))
                         [k := (nodes (sceneEffect scenes s) ! k)\<lparr>status := Finished\<rparr>]\<rparr>)))"
proof -
  from sceneEffect_nothing [OF assms] obtain c where
    "sceneEffect scenes s = s\<lparr>audioContextRef := c\<rparr>
     \<or> (\<exists>k. voiceSourceRef s = Some k \<and>
          sceneEffect scenes s =
            s\<lparr>audioContextRef := c, nodes := (nodes s)[k := detach_and_stop (nodes s ! k)]\<rparr>)"
    by blast
  then have frame: "snapshot (sceneEffect scenes s) = snapshot s"
    "length (nodes (sceneEffect scenes s)) = length (nodes s)"
    "voiceSourceRef (sceneEffect scenes s) = voiceSourceRef s"
    "\<forall>k < length (nodes s).
          onended (nodes (sceneEffect scenes s) ! k) = None
          \<or> nodes (sceneEffect scenes s) ! k = nodes s ! k"
    and st: "\<forall>k < length (nodes s).
          status (nodes (sceneEffect scenes s) ! k) = status (nodes s ! k)
          \<or> status (nodes s ! k) = Playing"
    by (auto simp: snapshot_def detach_nth detach_status)
  have quiet: "step scenes TimerFire (sceneEffect scenes s) = Inr (sceneEffect scenes s)
      \<and> (\<forall>k. step scenes (SourceEnded k) (sceneEffect scenes s)
                  = Inr ((sceneEffect scenes s)
                      \<lparr>nodes := (nodes (sceneEffect scenes s))
                         [k := (nodes (sceneEffect scenes s) ! k)\<lparr>status := Finished\<rparr>]\<rparr>))"
    if t: "timers s = 0"
      and n: "\<forall>k < length (nodes s). status (nodes s ! k) \<noteq> Playing
              \<and> (status (nodes s ! k) = Stopped \<longrightarrow> onended (nodes s ! k) = None)"
  proof (intro conjI allI)
    from frame(1) t have "timers (sceneEffect scenes s) = 0"
      by (simp add: snapshot_def)
    then show "step scenes TimerFire (sceneEffect scenes s) = Inr (sceneEffect scenes s)"
      by (simp add: timer_fire_def)
  next
    fix k
    have "status (nodes (sceneEffect scenes s) ! k) = Finished
        \<or> onended (nodes (sceneEffect scenes s) ! k) = None"
      if k: "k < length (nodes (sceneEffect scenes s))"
    proof -
      from k frame(2) have k': "k < length (nodes s)" by simp
      with n st have "status (nodes (sceneEffect scenes s) ! k) = status (nodes s ! k)"
        by blast
      moreover from n k' have "status (nodes s ! k) = Finished
          \<or> (status (nodes s ! k) = Stopped \<and> onended (nodes s ! k) = None)"
        by (cases "status (nodes s ! k)") auto
      moreover from frame(4) k' have "onended (nodes (sceneEffect scenes s) ! k) = None
          \<or> nodes (sceneEffect scenes s) ! k = nodes s ! k"
        by blast
      ultimately show ?thesis by auto
    qed
    then show "step scenes (SourceEnded k) (sceneEffect scenes s)
                  = Inr ((sceneEffect scenes s)
                      \<lparr>nodes := (nodes (sceneEffect scenes s))
                         [k := (nodes (sceneEffect scenes s) ! k)\<lparr>status := Finished\<rparr>]\<rparr>)"
      by (simp add: source_ended_no_handler)
  qed
  from frame quiet show ?thesis by blast
qed

theorem absent_narration_schedules_nothing_witness:
  "nothing_to_play [narrated, silent, narrated] (currentIndex scene0_done)
   \<and> timers scene0_done = 0
   \<and> length (nodes scene0_done) = 1
   \<and> status (nodes scene0_done ! 0) = Finished
   \<and> sceneEffect [narrated, silent, narrated] scene0_done = scene0_done
   \<and> run [narrated, silent, narrated] [StateChange, StateChange, SourceEnded 0, TimerFire]
        (mount True [narrated, silent, narrated]) = Inr scene0_done
   \<and> step [narrated, silent, narrated] TimerFire scene0_done = Inr scene0_done
   \<and> step [narrated, silent, narrated] (SourceEnded 0) scene0_done = Inr scene0_done"
proof -
  have h: "nothing_to_play [narrated, silent, narrated] (currentIndex scene0_done)"
    by (simp add: nothing_to_play_def scene_at_def scene0_done_def playable_def silent_def)
  have q: "timers scene0_done = 0
      \<and> (\<forall>k < length (nodes scene0_done). status (nodes scene0_done ! k) \<noteq> Playing
            \<and> (status (nodes scene0_done ! k) = Stopped \<longrightarrow> onended (nodes scene0_done ! k) = None))"
    by (simp add: scene0_done_def)
  have e: "sceneEffect [narrated, silent, narrated] scene0_done = scene0_done"
    by (simp add: player_defs)
  have r: "run [narrated, silent, narrated] [StateChange, StateChange, SourceEnded 0, TimerFire]
        (mount True [narrated, silent, narrated]) = Inr scene0_done"
    by (simp add: player_defs)
  have i: "scene0_done\<lparr>nodes := (nodes scene0_done)[0 := (nodes scene0_done ! 0)\<lparr>status := Finished\<rparr>]\<rparr>
      = scene0_done"
    by (simp add: scene0_done_def)
  note t = absent_narration_schedules_nothing [OF h]
  note u = t [THEN conjunct2, THEN conjunct2, THEN conjunct2, THEN conjunct2, rule_format, OF q]
  from u have "step [narrated, silent, narrated] TimerFire
        (sceneEffect [narrated, silent, narrated] scene0_done)
      = Inr (sceneEffect [narrated, silent, narrated] scene0_done)"
    and "step [narrated, silent, narrated] (SourceEnded 0)
        (sceneEffect [narrated, silent, narrated] scene0_done)
      = Inr ((sceneEffect [narrated, silent, narrated] scene0_done)
          \<lparr>nodes := (nodes (sceneEffect [narrated, silent, narrated] scene0_done))
             [0 := (nodes (sceneEffect [narrated, silent, narrated] scene0_done) ! 0)
                \<lparr>status := Finished\<rparr>]\<rparr>)"
    by blast+
  moreover have "length (nodes scene0_done) = 1" "status (nodes scene0_done ! 0) = Finished"
    "timers scene0_done = 0"
    by (simp_all add: scene0_done_def)
  ultimately show ?thesis using h e r i by simp
qed

section \<open>What the user's clicks leave alone\<close>

lemma sceneEffect_fields [simp]:
  "currentIndex (sceneEffect scenes s) = currentIndex s"
  "isPlaying (sceneEffect scenes s) = isPlaying s"
  "isMuted (sceneEffect scenes s) = isMuted s"
  "hasEnded (sceneEffect scenes s) = hasEnded s"
  "timers (sceneEffect scenes s) = timers s"
  by (simp_all add: sceneEffect_def Let_def split: option.splits)

lemma commit_fields [simp]:
  "currentIndex (commit scenes old new) = currentIndex new"
  "isPlaying (commit scenes old new) = isPlaying new"
  "isMuted (commit scenes old new) = isMuted new"
  "hasEnded (commit scenes old new) = hasEnded new"
  "timers (commit scenes old new) = timers new"
  by (simp_all add: commit_def)

text \<open>
  The mute button changes the muted flag and nothing else of the snapshot, in every
  state; whatever else it does is done to the device and to the nodes.
\<close>

lemma mute_keeps_position:
  assumes "step scenes ClickMute s = Inr s'"
  shows "currentIndex s' = currentIndex s \<and> isPlaying s' = isPlaying s
    \<and> hasEnded s' = hasEnded s \<and> timers s' = timers s"
  using assms by (auto simp: toggleMute_def split: if_splits)

text \<open>
  Every click leaves an index that is inside the scenes inside them: next and prev
  move by one and stop at the ends, a thumbnail exists for the scenes only, play and
  replay go to 0 or stay. A change of the device state does not touch the index.
\<close>

lemma clicks_keep_scene_range:
  assumes "0 \<le> currentIndex s" and "currentIndex s < int (length scenes)"
    and "ev \<noteq> TimerFire" and "\<forall>k. ev \<noteq> SourceEnded k"
    and "step scenes ev s = Inr s'"
  shows "0 \<le> currentIndex s' \<and> currentIndex s' < int (length scenes)"
proof (cases ev)
  case ClickPlayPause
  from assms(5) have "currentIndex s' = currentIndex s \<or> currentIndex s' = 0"
    unfolding ClickPlayPause
    by (auto simp: handlePlayPause_def Let_def split: if_splits option.splits)
  with assms(1,2) show ?thesis by auto
qed (use assms in \<open>auto simp: toggleMute_def handlePrev_def handleNext_def selectScene_def
      handleReplay_def Let_def split: if_splits\<close>)

section \<open>Runs that the claims are checked against\<close>

text \<open>
  C3. After the natural completion of a scene that is not the last, a navigation
  intent issued during the one-second pause should leave the auto-advance abandoned.
  The player never cancels the timer: on three narrated scenes, scene 0 completes (one
  timer pending), the user clicks next (index 1, the timer still pending), and the
  timer then fires as well (index 2).
\<close>

theorem gap_navigation_then_auto_advance:
  "map_sum id snapshot (run [narrated, narrated, narrated] []
      (mount True [narrated, narrated, narrated])) = Inr (0, True, False, False, 0)
   \<and> map_sum id snapshot (run [narrated, narrated, narrated] [SourceEnded 0]
      (mount True [narrated, narrated, narrated])) = Inr (0, True, False, False, 1)
   \<and> map_sum id snapshot (run [narrated, narrated, narrated] [SourceEnded 0, ClickNext]
      (mount True [narrated, narrated, narrated])) = Inr (1, True, False, False, 1)
   \<and> map_sum id snapshot (run [narrated, narrated, narrated] [SourceEnded 0, ClickNext, TimerFire]
      (mount True [narrated, narrated, narrated])) = Inr (2, True, False, False, 0)"
  by (simp add: player_defs)

text \<open>
  C9. The index should stay inside \<open>[0, sceneCount)\<close> under every operation. With two
  narrated scenes, scene 0 completes, the user selects scene 1 during the pause, and
  the pending timer then moves the index to 2, outside the two scenes. The clicks by
  themselves keep the index in range (\<open>clicks_keep_scene_range\<close>); the timer callback
  adds one to whatever the index is when it runs.
\<close>

theorem stale_timer_leaves_scene_range:
  "length [narrated, narrated] = 2
   \<and> map_sum id snapshot (run [narrated, narrated] [SourceEnded 0, ClickThumbnail 1]
      (mount True [narrated, narrated])) = Inr (1, True, False, False, 1)
   \<and> map_sum id snapshot (run [narrated, narrated] [SourceEnded 0, ClickThumbnail 1, TimerFire]
      (mount True [narrated, narrated])) = Inr (2, True, False, False, 0)
   \<and> scene_at [narrated, narrated] 2 = None"
  by (simp add: player_defs)

text \<open>
  C5. Play after pause should resume the existing source without decoding again. With
  the device running and the player at scene 1 (node 1 playing it), pause leaves node 1
  in place and the device comes to be suspended. On play, \<^verbatim>\<open>handlePlayPause\<close> asks the
  device to resume and then reads its state, which is still \<^verbatim>\<open>suspended\<close>: it calls
  \<^verbatim>\<open>playVoice\<close> itself (node 1 is stopped and loses its handler, node 2 starts from a
  fresh decoding), and the scene effect, which runs because \<^verbatim>\<open>isPlaying\<close> changed,
  calls it once more (node 2 is stopped, node 3 starts from another decoding). When
  the play click comes before the device has taken the suspended state, the handler
  sees \<^verbatim>\<open>running\<close> and leaves the source alone, and the effect alone replaces it
  (node 2). Either way the narration is decoded again and starts from its beginning.
\<close>

theorem resume_decodes_again:
  "map_sum id audio_view
      (run [narrated, narrated, narrated] [StateChange, StateChange, ClickThumbnail 1]
        (mount True [narrated, narrated, narrated]))
     = Inr (Some 1, [(None, Stopped), (Some 1, Playing)])
   \<and> map_sum id audio_view
      (run [narrated, narrated, narrated]
        [StateChange, StateChange, ClickThumbnail 1, ClickPlayPause, StateChange]
        (mount True [narrated, narrated, narrated]))
     = Inr (Some 1, [(None, Stopped), (Some 1, Playing)])
   \<and> map_sum id snapshot
      (run [narrated, narrated, narrated]
        [StateChange, StateChange, ClickThumbnail 1, ClickPlayPause, StateChange]
        (mount True [narrated, narrated, narrated]))
     = Inr (1, False, False, False, 0)
   \<and> map_sum id device_state
      (run [narrated, narrated, narrated]
        [StateChange, StateChange, ClickThumbnail 1, ClickPlayPause, StateChange]
        (mount True [narrated, narrated, narrated]))
     = Inr (Some Suspended)
   \<and> map_sum id audio_view
      (run [narrated, narrated, narrated]
        [StateChange, StateChange, ClickThumbnail 1, ClickPlayPause, StateChange, ClickPlayPause]
        (mount True [narrated, narrated, narrated]))
     = Inr (Some 3, [(None, Stopped), (None, Stopped), (None, Stopped), (Some 1, Playing)])
   \<and> map_sum id snapshot
      (run [narrated, narrated, narrated]
        [StateChange, StateChange, ClickThumbnail 1, ClickPlayPause, StateChange, ClickPlayPause]
        (mount True [narrated, narrated, narrated]))
     = Inr (1, True, False, False, 0)
   \<and> map_sum id audio_view
      (run [narrated, narrated, narrated]
        [StateChange, StateChange, ClickThumbnail 1, ClickPlayPause, ClickPlayPause]
        (mount True [narrated, narrated, narrated]))
     = Inr (Some 2, [(None, Stopped), (None, Stopped), (Some 1, Playing)])"
  by (simp add: player_defs)

text \<open>
  C8. Mute should neither stop nor restart the active source. With the device running,
  muting while scene 0 plays asks the device to suspend and leaves node 0 alone;
  unmuting asks it to resume and then stops node 0 and starts node 1 from the beginning
  of the narration. So it does when the device had not come to run before the clicks.
  Index and playing flag are the same throughout, as in every state
  (\<open>mute_keeps_position\<close>).
\<close>

theorem unmute_restarts_source:
  "map_sum id audio_view (run [narrated, narrated] [StateChange, StateChange]
        (mount True [narrated, narrated]))
     = Inr (Some 0, [(Some 0, Playing)])
   \<and> map_sum id audio_view (run [narrated, narrated]
        [StateChange, StateChange, ClickMute, StateChange] (mount True [narrated, narrated]))
     = Inr (Some 0, [(Some 0, Playing)])
   \<and> map_sum id device_state (run [narrated, narrated]
        [StateChange, StateChange, ClickMute, StateChange] (mount True [narrated, narrated]))
     = Inr (Some Suspended)
   \<and> map_sum id snapshot (run [narrated, narrated]
        [StateChange, StateChange, ClickMute, StateChange] (mount True [narrated, narrated]))
     = Inr (0, True, True, False, 0)
   \<and> map_sum id audio_view (run [narrated, narrated]
        [StateChange, StateChange, ClickMute, StateChange, ClickMute]
        (mount True [narrated, narrated]))
     = Inr (Some 1, [(None, Stopped), (Some 0, Playing)])
   \<and> map_sum id snapshot (run [narrated, narrated]
        [StateChange, StateChange, ClickMute, StateChange, ClickMute]
        (mount True [narrated, narrated]))
     = Inr (0, True, False, False, 0)
   \<and> map_sum id audio_view (run [narrated, narrated] [] (mount True [narrated, narrated]))
     = Inr (Some 0, [(Some 0, Playing)])
   \<and> map_sum id audio_view (run [narrated, narrated] [ClickMute] (mount True [narrated, narrated]))
     = Inr (Some 0, [(Some 0, Playing)])
   \<and> map_sum id snapshot (run [narrated, narrated] [ClickMute] (mount True [narrated, narrated]))
     = Inr (0, True, True, False, 0)
   \<and> map_sum id audio_view (run [narrated, narrated] [ClickMute, ClickMute]
        (mount True [narrated, narrated]))
     = Inr (Some 1, [(None, Stopped), (Some 0, Playing)])
   \<and> map_sum id snapshot (run [narrated, narrated] [ClickMute, ClickMute]
        (mount True [narrated, narrated]))
     = Inr (0, True, False, False, 0)"
  by (simp add: player_defs)

text \<open>
  C2, as the specification has it, fails: with narration for scenes 0 and 2 and none
  for scene 1, the player reaches scene 1 after scene 0 has completed and its timer has
  fired, and there it has no timer pending and no node that is still playing; a timer
  event and the end event of node 0 both leave it as it is. Scene 2 is not reached.
\<close>

theorem no_fallback_timer_counterexample:
  "map_sum id snapshot (run [narrated, silent, narrated] [SourceEnded 0, TimerFire]
      (mount True [narrated, silent, narrated])) = Inr (1, True, False, False, 0)
   \<and> map_sum id audio_view (run [narrated, silent, narrated] [SourceEnded 0, TimerFire]
      (mount True [narrated, silent, narrated])) = Inr (Some 0, [(Some 0, Finished)])
   \<and> run [narrated, silent, narrated] [SourceEnded 0, TimerFire, TimerFire]
        (mount True [narrated, silent, narrated])
     = run [narrated, silent, narrated] [SourceEnded 0, TimerFire]
        (mount True [narrated, silent, narrated])
   \<and> run [narrated, silent, narrated] [SourceEnded 0, TimerFire, SourceEnded 0]
        (mount True [narrated, silent, narrated])
     = run [narrated, silent, narrated] [SourceEnded 0, TimerFire]
        (mount True [narrated, silent, narrated])"
  by (simp add: player_defs)

text \<open>
  An exception that is not caught does not end a run. With the index moved outside the
  two scenes by the stale timer, the player paused and the device suspended, a click on
  play raises the \<^verbatim>\<open>TypeError\<close> of \<^verbatim>\<open>handlePlayPause\<close>; the update of \<^verbatim>\<open>isPlaying\<close>
  queued before it stands.
\<close>

lemma play_outside_the_scenes:
  "map_sum id snapshot (run [narrated, narrated]
      [StateChange, StateChange, SourceEnded 0, ClickThumbnail 1, TimerFire, ClickPlayPause,
       StateChange]
      (mount True [narrated, narrated])) = Inr (2, False, False, False, 0)
   \<and> map_sum (\<lambda>e. None) (uncaught [narrated, narrated] ClickPlayPause)
        (run [narrated, narrated]
          [StateChange, StateChange, SourceEnded 0, ClickThumbnail 1, TimerFire, ClickPlayPause,
           StateChange]
          (mount True [narrated, narrated])) = Inr (Some TypeError)
   \<and> map_sum id snapshot (run [narrated, narrated]
      [StateChange, StateChange, SourceEnded 0, ClickThumbnail 1, TimerFire, ClickPlayPause,
       StateChange, ClickPlayPause]
      (mount True [narrated, narrated])) = Inr (2, True, False, False, 0)"
  by (simp add: player_defs uncaught_def)

section \<open>Natural playback\<close>

lemma run_append:
  "run scenes (es @ fs) s =
     (case run scenes es s of Inl err \<Rightarrow> Inl err | Inr s' \<Rightarrow> run scenes fs s')"
  by (induction es arbitrary: s) (simp_all split: sum.splits)

lemma playableE:
  assumes "playable scene"
  obtains b buf where "audioBase64 scene = Some b" and "b \<noteq> []" and "decode b = Inr buf"
  using assms by (auto simp: playable_def split: option.splits sum.splits)

lemma sceneEffect_plays:
  assumes "isPlaying t" and "\<not> isMuted t" and "audioContextRef t \<noteq> None"
    and "scene_at scenes (currentIndex t) = Some scene"
    and "audioBase64 scene = Some b" and "b \<noteq> []"
  shows "\<exists>t'. sceneEffect scenes t = playVoice (currentIndex t) b t'
    \<and> audioContextRef t' \<noteq> None \<and> nodes t' = nodes t \<and> voiceSourceRef t' = voiceSourceRef t
    \<and> snapshot t' = snapshot t"
proof -
  define t' where "t' = (if device_state t = Some Suspended then resume t else t)"
  from assms(3) obtain c where c: "audioContextRef t = Some c" by auto
  have "sceneEffect scenes t = playVoice (currentIndex t') b t'"
    using assms(1,2,4,5,6) c unfolding sceneEffect_def t'_def Let_def by simp
  moreover have "audioContextRef t' \<noteq> None"
    using c by (simp add: t'_def resume_def)
  moreover have "nodes t' = nodes t" "voiceSourceRef t' = voiceSourceRef t"
    "snapshot t' = snapshot t" "currentIndex t' = currentIndex t"
    by (simp_all add: t'_def snapshot_def)
  ultimately show ?thesis by auto
qed

lemma mount_narrating:
  assumes "scenes \<noteq> []" and "playable (scenes ! 0)"
  shows "narrating 0 (mount True scenes)"
proof -
  from assms(2) obtain b buf
    where b: "audioBase64 (scenes ! 0) = Some b" "b \<noteq> []" "decode b = Inr buf"
    by (rule playableE)
  define t where "t = initAudio (initial\<lparr>isPlaying := True\<rparr>)"
  have m: "mount True scenes = sceneEffect scenes (initial\<lparr>isPlaying := True\<rparr>)"
    using assms(1) by (simp add: mount_def commit_def sceneEffect_def initial_def)
  have "sceneEffect scenes (initial\<lparr>isPlaying := True\<rparr>) = sceneEffect scenes t"
    by (simp add: sceneEffect_def t_def initial_def initAudio_def resume_def device_state_def
        Let_def)
  moreover have t: "isPlaying t" "\<not> isMuted t" "audioContextRef t \<noteq> None"
    "scene_at scenes (currentIndex t) = Some (scenes ! 0)"
    "nodes t = []" "voiceSourceRef t = None" "snapshot t = (0, True, False, False, 0)"
    using assms(1)
    by (simp_all add: t_def initial_def initAudio_def resume_def device_state_def scene_at_def
        snapshot_def Let_def)
  ultimately obtain t' where t': "mount True scenes = playVoice (currentIndex t) b t'"
    "audioContextRef t' \<noteq> None" "nodes t' = []" "voiceSourceRef t' = None"
    "snapshot t' = (0, True, False, False, 0)"
    using sceneEffect_plays [OF t(1,2,3,4) b(1,2)] m by auto
  from t'(2) obtain c where "audioContextRef t' = Some c" by auto
  moreover from t(7) have "currentIndex t = 0"
    by (simp add: snapshot_def)
  ultimately show ?thesis
    using playVoice_first [of t' _ b buf 0] t' b(3)
    by (simp add: narrating_def snapshot_def)
qed

lemma natural_completion:
  assumes "narrating k s" and "Suc k < length scenes"
  shows "source_ended scenes k s =
     s\<lparr>nodes := (nodes s)[k := (nodes s ! k)\<lparr>status := Finished\<rparr>], timers := 1\<rparr>"
  using assms
  by (simp add: narrating_def snapshot_def source_ended_def onended_handler_def commit_def
      Let_def)

lemma natural_advance:
  assumes "narrating k s" and "Suc k < length scenes" and "playable (scenes ! Suc k)"
  shows "narrating (Suc k) (timer_fire scenes (source_ended scenes k s))"
proof -
  from assms(3) obtain b buf
    where b: "audioBase64 (scenes ! Suc k) = Some b" "b \<noteq> []" "decode b = Inr buf"
    by (rule playableE)
  define t where "t = s\<lparr>nodes := (nodes s)[k := (nodes s ! k)\<lparr>status := Finished\<rparr>],
      timers := 0, currentIndex := int k + 1\<rparr>"
  have n: "nat (int k + 1) = Suc k" by simp
  from assms(1) have ci: "currentIndex s = int k"
    by (simp add: narrating_def snapshot_def)
  have tf: "timer_fire scenes (source_ended scenes k s) = sceneEffect scenes t"
    unfolding natural_completion [OF assms(1,2)]
    by (simp add: timer_fire_def commit_def t_def ci)
  have t: "isPlaying t" "\<not> isMuted t" "audioContextRef t \<noteq> None"
    "scene_at scenes (currentIndex t) = Some (scenes ! Suc k)"
    "length (nodes t) = Suc k" "voiceSourceRef t = Some k"
    "snapshot t = (int k + 1, True, False, False, 0)" "currentIndex t = int k + 1"
    using assms(1,2) by (simp_all add: t_def narrating_def snapshot_def scene_at_def n)
  from sceneEffect_plays [OF t(1,2,3,4) b(1,2)] obtain t'
    where t': "sceneEffect scenes t = playVoice (currentIndex t) b t'"
    "audioContextRef t' \<noteq> None" "nodes t' = nodes t" "voiceSourceRef t' = voiceSourceRef t"
    "snapshot t' = snapshot t"
    by auto
  from t'(2) obtain c where "audioContextRef t' = Some c" by auto
  from playVoice_replace [OF this _ b(3), of k "currentIndex t"] t'(4) t(6)
  have pv: "playVoice (currentIndex t) b t' =
      t'\<lparr>voiceSourceRef := Some (length (nodes t')),
        nodes := (nodes t')[k := detach_and_stop (nodes t' ! k)] @
                 [\<lparr>buffer = buf, onended = Some (currentIndex t), status = Playing\<rparr>]\<rparr>"
    by simp
  have e: "timer_fire scenes (source_ended scenes k s) =
      t'\<lparr>voiceSourceRef := Some (length (nodes t')),
        nodes := (nodes t')[k := detach_and_stop (nodes t' ! k)] @
                 [\<lparr>buffer = buf, onended = Some (currentIndex t), status = Playing\<rparr>]\<rparr>"
    by (simp only: tf t'(1) pv)
  show ?thesis
    unfolding e using t(5,7,8) t'(2,3,5)
    by (simp add: narrating_def snapshot_def nth_append)
qed

lemma last_completion:
  assumes "narrating k s" and "Suc k = length scenes"
  shows "snapshot (source_ended scenes k s) = (int k, False, False, True, 0)"
  using assms
  by (auto simp: narrating_def snapshot_def source_ended_def onended_handler_def commit_def
      sceneEffect_def Let_def)

lemma run_natural:
  assumes "scenes \<noteq> []" and "\<forall>scene \<in> set scenes. playable scene"
  shows "k < length scenes \<Longrightarrow>
    \<exists>s. run scenes (natural_events k) (mount True scenes) = Inr s \<and> narrating k s"
proof (induction k)
  case 0
  from assms have "playable (scenes ! 0)" by (cases scenes) simp_all
  with assms(1) show ?case by (simp add: mount_narrating)
next
  case (Suc k)
  then obtain s where s: "run scenes (natural_events k) (mount True scenes) = Inr s" "narrating k s"
    by auto
  from assms(2) Suc.prems have "playable (scenes ! Suc k)" by simp
  with s(2) Suc.prems have "narrating (Suc k) (timer_fire scenes (source_ended scenes k s))"
    by (rule natural_advance)
  with s(1) show ?case by (simp add: run_append)
qed

text \<open>
  C4. Let every scene of a sequence of \<open>N \<ge> 1\<close> scenes have a narration that decodes,
  and let the player, mounted with autoplay, be left alone. After \<open>k < N\<close> completions
  (each followed by its timer) it is playing scene \<open>k\<close> and has not ended; a further
  completion of a scene that is not the last leaves the index and sets the timer that
  will add one to it; and the \<open>N\<close>-th completion, that of the last scene, ends the
  session at index \<open>N - 1\<close>.
\<close>

theorem natural_playback_reaches_end:
  assumes "scenes \<noteq> []" and "\<forall>scene \<in> set scenes. playable scene"
  shows "(\<forall>k < length scenes.
            map_sum id snapshot (run scenes (natural_events k) (mount True scenes))
              = Inr (int k, True, False, False, 0))
    \<and> (\<forall>k < length scenes - 1.
            map_sum id snapshot
              (run scenes (natural_events k @ [SourceEnded k]) (mount True scenes))
              = Inr (int k, True, False, False, 1))
    \<and> map_sum id snapshot
          (run scenes (natural_events (length scenes - 1) @ [SourceEnded (length scenes - 1)])
            (mount True scenes))
        = Inr (int (length scenes) - 1, False, False, True, 0)"
proof (intro conjI allI impI)
  fix k assume "k < length scenes"
  with run_natural [OF assms] obtain s
    where "run scenes (natural_events k) (mount True scenes) = Inr s" "narrating k s"
    by blast
  then show "map_sum id snapshot (run scenes (natural_events k) (mount True scenes))
      = Inr (int k, True, False, False, 0)"
    by (simp add: narrating_def)
next
  fix k assume k: "k < length scenes - 1"
  then have "k < length scenes" by simp
  with run_natural [OF assms] obtain s
    where s: "run scenes (natural_events k) (mount True scenes) = Inr s" "narrating k s"
    by blast
  from k have "Suc k < length scenes" by simp
  from natural_completion [OF s(2) this] s(2)
  have "snapshot (source_ended scenes k s) = (int k, True, False, False, 1)"
    by (simp add: narrating_def snapshot_def)
  with s(1) show "map_sum id snapshot
      (run scenes (natural_events k @ [SourceEnded k]) (mount True scenes))
      = Inr (int k, True, False, False, 1)"
    by (simp add: run_append)
next
  from assms(1) have n: "length scenes - 1 < length scenes" "Suc (length scenes - 1) = length scenes"
    by simp_all
  with run_natural [OF assms] obtain s
    where s: "run scenes (natural_events (length scenes - 1)) (mount True scenes) = Inr s"
      "narrating (length scenes - 1) s"
    by blast
  from last_completion [OF s(2) n(2)] assms(1)
  have "snapshot (source_ended scenes (length scenes - 1) s)
      = (int (length scenes) - 1, False, False, True, 0)"
    by (simp add: of_nat_diff Suc_leI)
  with s(1) show "map_sum id snapshot
      (run scenes (natural_events (length scenes - 1) @ [SourceEnded (length scenes - 1)])
        (mount True scenes))
      = Inr (int (length scenes) - 1, False, False, True, 0)"
    by (simp add: run_append)
qed

theorem natural_playback_reaches_end_witness:
  "[narrated, narrated] \<noteq> [] \<and> playable narrated
   \<and> map_sum id snapshot (run [narrated, narrated] (natural_events 0)
        (mount True [narrated, narrated])) = Inr (0, True, False, False, 0)
   \<and> map_sum id snapshot (run [narrated, narrated] (natural_events 0 @ [SourceEnded 0])
        (mount True [narrated, narrated])) = Inr (0, True, False, False, 1)
   \<and> map_sum id snapshot (run [narrated, narrated] (natural_events 1)
        (mount True [narrated, narrated])) = Inr (1, True, False, False, 0)
   \<and> map_sum id snapshot (run [narrated, narrated] (natural_events 1 @ [SourceEnded 1])
        (mount True [narrated, narrated])) = Inr (1, False, False, True, 0)"
proof -
  have h1: "[narrated, narrated] \<noteq> []" by simp
  have h2: "\<forall>scene \<in> set [narrated, narrated]. playable scene"
    by (simp add: playable_narrated)
  note t = natural_playback_reaches_end [OF h1 h2]
  note a = t [THEN conjunct1, rule_format]
  note b = t [THEN conjunct2, THEN conjunct1, rule_format]
  note c = t [THEN conjunct2, THEN conjunct2]
  have a0: "map_sum id snapshot (run [narrated, narrated] (natural_events 0)
        (mount True [narrated, narrated])) = Inr (0, True, False, False, 0)"
    using a [of 0] by simp
  have a1: "map_sum id snapshot (run [narrated, narrated] (natural_events 1)
        (mount True [narrated, narrated])) = Inr (1, True, False, False, 0)"
    using a [of 1] by simp
  have b0: "map_sum id snapshot (run [narrated, narrated] (natural_events 0 @ [SourceEnded 0])
        (mount True [narrated, narrated])) = Inr (0, True, False, False, 1)"
    using b [of 0] by simp
  have c1: "map_sum id snapshot (run [narrated, narrated] (natural_events 1 @ [SourceEnded 1])
        (mount True [narrated, narrated])) = Inr (1, False, False, True, 0)"
    using c by simp
  from h1 playable_narrated a0 a1 b0 c1 show ?thesis by blast
qed

section \<open>Decode errors and boundary navigation\<close>

text \<open>
  C7. A narration of no bytes does not decode (there is no buffer of zero frames), and
  neither does one that \<^verbatim>\<open>atob\<close> rejects. When the narration does not decode,
  \<^verbatim>\<open>playVoice\<close> catches the error: snapshot, timers, device and \<open>voiceSourceRef\<close> are
  as before, no node is added and none gets a handler. No event of the player ends in
  one of the decoder's errors, and none reports one as an exception that was not
  caught. And the scene effect leaves the same snapshot, device, \<open>voiceSourceRef\<close> and
  number of nodes as it does when the scene has no narration at all.
\<close>

theorem decode_error_not_fatal:
  "decode [] = Inl NotSupportedError
   \<and> (atob b = Inl e \<longrightarrow> decode b = Inl e)
   \<and> (decode b = Inl e \<longrightarrow>
        snapshot (playVoice ci b s) = snapshot s
        \<and> audioContextRef (playVoice ci b s) = audioContextRef s
        \<and> voiceSourceRef (playVoice ci b s) = voiceSourceRef s
        \<and> length (nodes (playVoice ci b s)) = length (nodes s)
        \<and> (\<forall>k < length (nodes s).
              onended (nodes (playVoice ci b s) ! k) = None
              \<or> nodes (playVoice ci b s) ! k = nodes s ! k))
   \<and> step scenes ev s \<noteq> Inl InvalidCharacterError
   \<and> step scenes ev s \<noteq> Inl RangeError
   \<and> step scenes ev s \<noteq> Inl NotSupportedError
   \<and> uncaught scenes ev s \<noteq> Some InvalidCharacterError
   \<and> uncaught scenes ev s \<noteq> Some RangeError
   \<and> uncaught scenes ev s \<noteq> Some NotSupportedError
   \<and> (decode b = Inl e \<and> scene_at scenes (currentIndex s) = Some \<lparr>audioBase64 = Some b\<rparr> \<longrightarrow>
        snapshot (sceneEffect scenes s)
          = snapshot (sceneEffect (scenes[nat (currentIndex s) := silent]) s)
        \<and> audioContextRef (sceneEffect scenes s)
          = audioContextRef (sceneEffect (scenes[nat (currentIndex s) := silent]) s)
        \<and> voiceSourceRef (sceneEffect scenes s)
          = voiceSourceRef (sceneEffect (scenes[nat (currentIndex s) := silent]) s)
        \<and> length (nodes (sceneEffect scenes s))
          = length (nodes (sceneEffect (scenes[nat (currentIndex s) := silent]) s)))"
proof (intro conjI impI)
  show "decode [] = Inl NotSupportedError"
    by (simp add: decode_def atob_def strip_padding_def Let_def to_bytes_map decode_bytes_eq)
  show "decode b = Inl e" if "atob b = Inl e"
    using that by (simp add: decode_def)
  show "step scenes ev s \<noteq> Inl InvalidCharacterError" "step scenes ev s \<noteq> Inl RangeError"
    "step scenes ev s \<noteq> Inl NotSupportedError"
    by (cases ev; simp)+
  show "uncaught scenes ev s \<noteq> Some InvalidCharacterError"
    "uncaught scenes ev s \<noteq> Some RangeError"
    "uncaught scenes ev s \<noteq> Some NotSupportedError"
    by (simp_all add: uncaught_def handlePlayPause_def Let_def split: option.splits)
next
  assume d: "decode b = Inl e"
  from playVoice_failed_shape [OF d, of ci s]
  show "snapshot (playVoice ci b s) = snapshot s"
    "audioContextRef (playVoice ci b s) = audioContextRef s"
    "voiceSourceRef (playVoice ci b s) = voiceSourceRef s"
    "length (nodes (playVoice ci b s)) = length (nodes s)"
    "\<forall>k < length (nodes s).
        onended (nodes (playVoice ci b s) ! k) = None
        \<or> nodes (playVoice ci b s) ! k = nodes s ! k"
    by (auto simp: snapshot_def detach_nth)
next
  assume a: "decode b = Inl e \<and> scene_at scenes (currentIndex s) = Some \<lparr>audioBase64 = Some b\<rparr>"
  then have n1: "nothing_to_play scenes (currentIndex s)"
    by (auto simp: nothing_to_play_def playable_def)
  from a have "scene_at (scenes[nat (currentIndex s) := silent]) (currentIndex s) = Some silent"
    by (auto simp: scene_at_def split: if_splits)
  then have n2: "nothing_to_play (scenes[nat (currentIndex s) := silent]) (currentIndex s)"
    by (simp add: nothing_to_play_def playable_def silent_def)
  from sceneEffect_nothing [OF n1] sceneEffect_nothing [OF n2]
  show "snapshot (sceneEffect scenes s)
          = snapshot (sceneEffect (scenes[nat (currentIndex s) := silent]) s)"
    "voiceSourceRef (sceneEffect scenes s)
          = voiceSourceRef (sceneEffect (scenes[nat (currentIndex s) := silent]) s)"
    "length (nodes (sceneEffect scenes s))
          = length (nodes (sceneEffect (scenes[nat (currentIndex s) := silent]) s))"
    by (auto simp: snapshot_def)
  show "audioContextRef (sceneEffect scenes s)
          = audioContextRef (sceneEffect (scenes[nat (currentIndex s) := silent]) s)"
    by (rule sceneEffect_device)
qed

theorem decode_error_not_fatal_witness:
  "atob ''!!'' = Inl InvalidCharacterError
   \<and> decode ''!!'' = Inl InvalidCharacterError
   \<and> scene_at [narrated, \<lparr>audioBase64 = Some ''!!''\<rparr>] (currentIndex scene0_done)
       = Some \<lparr>audioBase64 = Some ''!!''\<rparr>
   \<and> snapshot (playVoice 1 ''!!'' scene0_done) = snapshot scene0_done
   \<and> voiceSourceRef (playVoice 1 ''!!'' scene0_done) = Some 0
   \<and> length (nodes (playVoice 1 ''!!'' scene0_done)) = 1
   \<and> onended (nodes (playVoice 1 ''!!'' scene0_done) ! 0) = None
   \<and> snapshot (sceneEffect [narrated, \<lparr>audioBase64 = Some ''!!''\<rparr>] scene0_done)
       = snapshot (sceneEffect [narrated, silent] scene0_done)"
proof -
  have h1: "atob ''!!'' = Inl InvalidCharacterError"
    by (simp add: atob_def is_ascii_whitespace_def strip_padding_def b64_index_def Let_def)
  note t = decode_error_not_fatal
    [of "''!!''" InvalidCharacterError 1 scene0_done "[narrated, \<lparr>audioBase64 = Some ''!!''\<rparr>]"]
  from t h1 have h2: "decode ''!!'' = Inl InvalidCharacterError"
    by blast
  have h3: "scene_at [narrated, \<lparr>audioBase64 = Some ''!!''\<rparr>] (currentIndex scene0_done)
       = Some \<lparr>audioBase64 = Some ''!!''\<rparr>"
    by (simp add: scene_at_def scene0_done_def)
  have u: "[narrated, \<lparr>audioBase64 = Some ''!!''\<rparr>][nat (currentIndex scene0_done) := silent]
      = [narrated, silent]"
    by (simp add: scene0_done_def)
  have x: "onended (nodes (playVoice 1 ''!!'' scene0_done) ! 0) = None"
    by (simp add: playVoice_def h2 scene0_done_def)
  from t h2 h3 have "snapshot (playVoice 1 ''!!'' scene0_done) = snapshot scene0_done"
    and "voiceSourceRef (playVoice 1 ''!!'' scene0_done) = voiceSourceRef scene0_done"
    and "length (nodes (playVoice 1 ''!!'' scene0_done)) = length (nodes scene0_done)"
    and "snapshot (sceneEffect [narrated, \<lparr>audioBase64 = Some ''!!''\<rparr>] scene0_done)
       = snapshot (sceneEffect
           ([narrated, \<lparr>audioBase64 = Some ''!!''\<rparr>][nat (currentIndex scene0_done) := silent])
           scene0_done)"
    by blast+
  with h1 h2 h3 x show ?thesis
    by (simp add: u) (simp add: scene0_done_def)
qed

text \<open>
  C10. \<^verbatim>\<open>handleNext\<close> called with the index at (or beyond) the last scene, and
  \<^verbatim>\<open>handlePrev\<close> called with the index at 0, clear the ended flag and change nothing
  else: the index, the playing flag and the audio side are as before, and the scene
  effect does not run. In the ended state this leaves the end screen without
  changing the scene or starting playback. (The rendered buttons are disabled at
  index 0 and at the last index; this is about the handlers.)
\<close>

theorem boundary_navigation_clears_ended:
  "(int (length scenes) - 1 \<le> currentIndex s \<longrightarrow>
      commit scenes s (handleNext scenes s) = s\<lparr>hasEnded := False\<rparr>)
   \<and> (currentIndex s \<le> 0 \<longrightarrow> commit scenes s (handlePrev s) = s\<lparr>hasEnded := False\<rparr>)"
  by (simp add: commit_def handleNext_def handlePrev_def)

theorem boundary_navigation_clears_ended_witness:
  "run [narrated, narrated] (StateChange # StateChange # natural_events 1 @ [SourceEnded 1])
      (mount True [narrated, narrated])
     = Inr session_ended
   \<and> int (length [narrated, narrated]) - 1 \<le> currentIndex session_ended
   \<and> commit [narrated, narrated] session_ended (handleNext [narrated, narrated] session_ended)
       = session_ended\<lparr>hasEnded := False\<rparr>
   \<and> snapshot (session_ended\<lparr>hasEnded := False\<rparr>) = (1, False, False, False, 0)
   \<and> currentIndex (session_ended\<lparr>currentIndex := 0\<rparr>) \<le> 0
   \<and> commit [narrated] (session_ended\<lparr>currentIndex := 0\<rparr>)
        (handlePrev (session_ended\<lparr>currentIndex := 0\<rparr>))
       = session_ended\<lparr>currentIndex := 0, hasEnded := False\<rparr>"
proof -
  have r: "run [narrated, narrated] (StateChange # StateChange # natural_events 1 @ [SourceEnded 1])
      (mount True [narrated, narrated]) = Inr session_ended"
    by (simp add: player_defs)
  have h1: "int (length [narrated, narrated]) - 1 \<le> currentIndex session_ended"
    by (simp add: session_ended_def)
  have h2: "currentIndex (session_ended\<lparr>currentIndex := 0\<rparr>) \<le> 0"
    by simp
  have v: "snapshot (session_ended\<lparr>hasEnded := False\<rparr>) = (1, False, False, False, 0)"
    by (simp add: snapshot_def session_ended_def)
  from boundary_navigation_clears_ended [of "[narrated, narrated]" session_ended] h1
  have a: "commit [narrated, narrated] session_ended
        (handleNext [narrated, narrated] session_ended) = session_ended\<lparr>hasEnded := False\<rparr>"
    by blast
  from boundary_navigation_clears_ended [of "[narrated]" "session_ended\<lparr>currentIndex := 0\<rparr>"] h2
  have b: "commit [narrated] (session_ended\<lparr>currentIndex := 0\<rparr>)
        (handlePrev (session_ended\<lparr>currentIndex := 0\<rparr>))
       = session_ended\<lparr>currentIndex := 0, hasEnded := False\<rparr>"
    by simp
  from r h1 h2 v a b show ?thesis by blast
qed

end
